theory Spec2Isabelle
  imports Main "HOL-Library.Sublist" "HOL-Library.AList"
begin

section \<open>The Sigma analyzer of \<^verbatim>\<open>timesketch/lib/analyzers/sigma_tagger.py\<close>\<close>

text \<open>
  The analyzer runs every Sigma rule as a query against the event store, annotates each
  event the query yields, and returns a summary string. The event store, the sketch, the
  logger, the clock and the application configuration are collaborators of the analyzer:
  they are modelled as one explicit \<open>world\<close> that every function takes and returns.
\<close>

subsection \<open>Exceptions\<close>

text \<open>
  \<open>TransportError\<close> stands for \<^verbatim>\<open>elasticsearch.TransportError\<close> (and its subclasses), the
  only class the first \<^verbatim>\<open>except\<close> clause of \<^verbatim>\<open>run\<close> names. \<open>TypeError\<close>, \<open>ValueError\<close>,
  \<open>OverflowError\<close> and \<open>KeyError\<close> are the Python built-ins that the code and
  \<^verbatim>\<open>time.sleep\<close> can raise; \<open>OtherError\<close> is any other exception of the store or of the
  Sigma library.
\<close>

datatype exn = TransportError | TypeError | ValueError | OverflowError | KeyError | OtherError

subsection \<open>Events and the event store\<close>

text \<open>
  An event exposes \<^verbatim>\<open>event.source\<close>, a dict of attributes; the two attributes the analyzer
  reads hold lists of strings. Every call the analyzer makes on an event is recorded in
  the world, together with the event's identifier, in the order the calls are made. The
  calls \<^verbatim>\<open>add_attributes\<close>, \<^verbatim>\<open>add_tags\<close> and \<^verbatim>\<open>commit\<close> themselves are taken to succeed: a
  failure of the store shows as an exception of the stream of events.
\<close>

record event =
  event_id :: nat
  source :: "string \<Rightarrow> string list option"

datatype event_call =
    AddAttributes string "string list"
  | AddTags "string list"
  | Commit

text \<open>
  \<^verbatim>\<open>event_stream\<close> returns a lazy sequence: it yields some events and then either is
  exhausted or raises. What the store answers to the \<open>n\<close>-th query of a run is the
  function \<open>respond\<close> of the world.
\<close>

datatype stream_end = Exhausted | Raises exn

datatype log_entry =
    NoRulesFound
  | Progress nat nat
  | Timeout string exn int
  | ProblemWithRule string

datatype story_text = SIGMA_STORY_HEADER | Literal string

datatype sketch_call =
    AddView string string string
  | AddAggregation string string string nat string string
  | AddStory string
  | StoryAddText story_text bool
  | StoryAddAggregation
  | StoryAddView

record world =
  respond :: "nat \<Rightarrow> string \<Rightarrow> event list \<times> stream_end"
  queries :: nat
  store_log :: "(nat \<times> event_call) list"
  slept :: "int list"
  logged :: "log_entry list"
  sketch_log :: "sketch_call list"
  config :: "string \<Rightarrow> int option"

definition event_stream :: "world \<Rightarrow> string \<Rightarrow> (event list \<times> stream_end) \<times> world" where
  "event_stream w query = (respond w (queries w) query, w\<lparr>queries := queries w + 1\<rparr>)"

definition record_call :: "event \<Rightarrow> event_call \<Rightarrow> world \<Rightarrow> world" where
  "record_call ev c w = w\<lparr>store_log := store_log w @ [(event_id ev, c)]\<rparr>"

subsection \<open>Python helpers\<close>

text \<open>\<^verbatim>\<open>d.get(key, [])\<close> on a dict of lists.\<close>

definition get_list :: "(string \<Rightarrow> string list option) \<Rightarrow> string \<Rightarrow> string list" where
  "get_list d k = (case d k of None \<Rightarrow> [] | Some xs \<Rightarrow> xs)"

text \<open>
  \<^verbatim>\<open>list(set(xs))\<close>: the elements of \<open>xs\<close>, each once. Python leaves the order of the
  result open; the model fixes one order and no theorem below depends on it.
\<close>

definition list_set :: "string list \<Rightarrow> string list" where
  "list_set xs = remdups xs"

text \<open>\<^verbatim>\<open>tag.startswith(('attack.', 'car.'))\<close>\<close>

definition is_ttp :: "string \<Rightarrow> bool" where
  "is_ttp tag = (prefix ''attack.'' tag \<or> prefix ''car.'' tag)"

subsection \<open>\<^verbatim>\<open>run_sigma_rule\<close>\<close>

text \<open>
  The inner loop \<^verbatim>\<open>for tag in tag_list: ... tag_list.remove(tag)\<close>. Python's list iterator
  keeps an index \<open>i\<close> into the list it iterates and stops when \<open>i\<close> reaches the current
  length; \<^verbatim>\<open>remove\<close> deletes the first element equal to \<open>tag\<close> from that same list. The
  function returns the tag list and \<^verbatim>\<open>ts_ttp\<close> as the loop leaves them.
\<close>

function tag_loop :: "nat \<Rightarrow> string list \<Rightarrow> string list \<Rightarrow> string list \<times> string list" where
  "tag_loop i tag_list ts_ttp =
     (if i < length tag_list then
        (let tag = tag_list ! i in
         if is_ttp tag then tag_loop (i + 1) (remove1 tag tag_list) (ts_ttp @ [tag])
         else tag_loop (i + 1) tag_list ts_ttp)
      else (tag_list, ts_ttp))"
  by pat_completeness auto
termination
proof (relation "measure (\<lambda>(i, tag_list, ts_ttp). length tag_list - i)")
  show "wf (measure (\<lambda>(i, tag_list, ts_ttp). length tag_list - i))" by simp
next
  fix i :: nat and tag_list ts_ttp :: "string list" and tag
  assume "i < length tag_list" and "tag = tag_list ! i"
  then have "tag \<in> set tag_list" by simp
  then have "length (remove1 tag tag_list) = length tag_list - 1"
    by (simp add: length_remove1)
  with \<open>i < length tag_list\<close>
  show "((i + 1, remove1 tag tag_list, ts_ttp @ [tag]), (i, tag_list, ts_ttp))
          \<in> measure (\<lambda>(i, tag_list, ts_ttp). length tag_list - i)"
    by simp
next
  fix i :: nat and tag_list ts_ttp :: "string list"
  assume "i < length tag_list"
  then show "((i + 1, tag_list, ts_ttp), (i, tag_list, ts_ttp))
          \<in> measure (\<lambda>(i, tag_list, ts_ttp). length tag_list - i)"
    by simp
qed

declare tag_loop.simps [simp del]

text \<open>
  The body of \<^verbatim>\<open>for event in events\<close> for one event. \<open>tag_list\<close> is the argument of
  \<^verbatim>\<open>run_sigma_rule\<close>: \<open>None\<close> is Python's \<^verbatim>\<open>None\<close>, on which \<^verbatim>\<open>for tag in tag_list\<close> raises
  \<^verbatim>\<open>TypeError\<close>. The list is the caller's object, so the list the body leaves behind is
  returned next to the world.
\<close>

definition tag_event ::
  "string \<Rightarrow> event \<Rightarrow> string list option \<Rightarrow> world \<Rightarrow> exn option \<times> string list option \<times> world" where
  "tag_event rule_name ev tag_list w =
     (let ts_sigma_rules = get_list (source ev) ''ts_sigma_rule'' @ [rule_name];
          w1 = record_call ev (AddAttributes ''ts_sigma_rule'' (list_set ts_sigma_rules)) w;
          ts_ttp = get_list (source ev) ''ts_ttp''
      in case tag_list of
           None \<Rightarrow> (Some TypeError, None, w1)
         | Some tags \<Rightarrow>
             (let (tags', ts_ttp') = tag_loop 0 tags ts_ttp;
                  w2 = record_call ev (AddTags tags') w1;
                  w3 = (if length ts_ttp' > 0
                        then record_call ev (AddAttributes ''ts_ttp'' (list_set ts_ttp')) w2
                        else w2);
                  w4 = record_call ev Commit w3
              in (None, Some tags', w4)))"

text \<open>
  The loop \<^verbatim>\<open>for event in events\<close> with its counter. When the stream raises after its
  last event, or the body raises, the exception leaves \<^verbatim>\<open>run_sigma_rule\<close>.
\<close>

fun events_loop ::
  "string \<Rightarrow> event list \<Rightarrow> stream_end \<Rightarrow> nat \<Rightarrow> string list option \<Rightarrow> world
     \<Rightarrow> (exn + nat) \<times> string list option \<times> world" where
  "events_loop rule_name [] Exhausted tagged_events_counter tag_list w =
     (Inr tagged_events_counter, tag_list, w)"
| "events_loop rule_name [] (Raises e) tagged_events_counter tag_list w =
     (Inl e, tag_list, w)"
| "events_loop rule_name (ev # evs) fin tagged_events_counter tag_list w =
     (case tag_event rule_name ev tag_list w of
        (Some e, tag_list', w') \<Rightarrow> (Inl e, tag_list', w')
      | (None, tag_list', w') \<Rightarrow>
          events_loop rule_name evs fin (tagged_events_counter + 1) tag_list' w')"

definition run_sigma_rule ::
  "world \<Rightarrow> string \<Rightarrow> string \<Rightarrow> string list option
     \<Rightarrow> (exn + nat) \<times> string list option \<times> world" where
  "run_sigma_rule w query rule_name tag_list =
     (let ((events, fin), w1) = event_stream w query
      in events_loop rule_name events fin 0 tag_list w1)"

subsection \<open>String formatting\<close>

text \<open>\<^verbatim>\<open>'{0:d}'.format(n)\<close> for a count \<open>n\<close>, which is never negative.\<close>

definition digit_char :: "nat \<Rightarrow> char" where
  "digit_char d = ''0123456789'' ! d"

fun format_d :: "nat \<Rightarrow> string" where
  "format_d n = (if n < 10 then [digit_char n] else format_d (n div 10) @ [digit_char (n mod 10)])"

declare format_d.simps [simp del]

text \<open>\<^verbatim>\<open>sep.join(xs)\<close>\<close>

fun join :: "string \<Rightarrow> string list \<Rightarrow> string" where
  "join sep [] = []"
| "join sep [x] = x"
| "join sep (x # y # ys) = x @ sep @ join sep (y # ys)"

subsection \<open>\<^verbatim>\<open>add_sigma_match_view\<close>\<close>

text \<open>
  The calls on the sketch and on the story, in order. The identifiers of the view and
  of the timeline, which the sketch supplies, are left out of the recorded calls;
  \<^verbatim>\<open>utils.SIGMA_STORY_HEADER\<close> is a constant of another module and is recorded by name. The
  flag of \<open>StoryAddText\<close> tells whether the call passes \<^verbatim>\<open>skip_if_exists=True\<close>.
\<close>

definition NAME :: string where
  "NAME = ''sigma''"

definition story_summary :: "nat \<Rightarrow> string" where
  "story_summary sigma_rule_counter =
     ''## Sigma Analyzer.'' @ [CHR 0x0A, CHR 0x0A] @ ''The Sigma '' @
     ''analyzer takes Events and matches them with Sigma rules.'' @
     ''In this timeline the analyzer discovered '' @ format_d sigma_rule_counter @ '' '' @
     ''Sigma tags.'' @ [CHR 0x0A, CHR 0x0A] @ ''This is a summary of '' @
     ''it'' @ [CHR 0x27] @ ''s findings.''"

definition add_sigma_match_view :: "nat \<Rightarrow> world \<Rightarrow> world" where
  "add_sigma_match_view sigma_rule_counter w =
     w\<lparr>sketch_log := sketch_log w @
       [AddView ''Sigma Rule matches'' NAME (''tag:'' @ [CHR 0x22] @ ''sigma*'' @ [CHR 0x22]),
        AddAggregation ''Top 20 Sigma tags'' ''field_bucket'' ''tag'' 20 ''hbarchart''
          ''Created by the Sigma analyzer'',
        AddStory ''Sigma Rule hits'',
        StoryAddText SIGMA_STORY_HEADER True,
        StoryAddText (Literal (story_summary sigma_rule_counter)) False,
        StoryAddText (Literal ''The top 20 most commonly discovered tags were:'') False,
        StoryAddAggregation,
        StoryAddText (Literal ''And an overview of all the discovered search terms:'') False,
        StoryAddView]\<rparr>"

subsection \<open>\<^verbatim>\<open>run\<close>\<close>

text \<open>
  A rule is a dict with the keys \<^verbatim>\<open>file_name\<close>, \<^verbatim>\<open>es_query\<close> and \<^verbatim>\<open>tags\<close>; \<^verbatim>\<open>rule.get('tags')\<close>
  is \<^verbatim>\<open>None\<close> when the rule has no tags. The tag list is a mutable object that belongs
  to the rule: what \<^verbatim>\<open>run_sigma_rule\<close> leaves in it is written back to the rule. Each
  rule owns its own list.
\<close>

record rule =
  file_name :: string
  es_query :: string
  tags :: "string list option"

text \<open>
  The local variables of \<^verbatim>\<open>run\<close> that the loop updates. \<^verbatim>\<open>tags_applied\<close> is a dict; an
  association list keeps its insertion order.
\<close>

record locals =
  tags_applied :: "(string \<times> nat) list"
  sigma_rule_counter :: nat
  problem_strings :: "string list"

text \<open>\<^verbatim>\<open>d[k] += c\<close> raises \<^verbatim>\<open>KeyError\<close> when \<open>k\<close> is not a key of \<open>d\<close>.\<close>

definition dict_iadd :: "string \<Rightarrow> nat \<Rightarrow> (string \<times> nat) list \<Rightarrow> exn + (string \<times> nat) list" where
  "dict_iadd k c d =
     (case map_of d k of
        None \<Rightarrow> Inl KeyError
      | Some v \<Rightarrow> Inr (AList.update k (v + c) d))"

text \<open>
  \<^verbatim>\<open>run_sigma_rule\<close> followed by \<^verbatim>\<open>tags_applied[...] += tagged_events_counter\<close>, as both
  the \<^verbatim>\<open>try\<close> block and the handler of \<^verbatim>\<open>TransportError\<close> do.
\<close>

definition run_and_count ::
  "rule \<Rightarrow> locals \<Rightarrow> world \<Rightarrow> exn option \<times> rule \<times> locals \<times> world" where
  "run_and_count rule st w =
     (let (r, tag_list', w1) = run_sigma_rule w (es_query rule) (file_name rule) (tags rule);
          rule' = rule\<lparr>tags := tag_list'\<rparr>
      in case r of
           Inl e \<Rightarrow> (Some e, rule', st, w1)
         | Inr tagged_events_counter \<Rightarrow>
             (case dict_iadd (file_name rule) tagged_events_counter (tags_applied st) of
                Inl e \<Rightarrow> (Some e, rule', st, w1)
              | Inr d \<Rightarrow> (None, rule', st\<lparr>tags_applied := d\<rparr>, w1)))"

text \<open>The \<^verbatim>\<open>try\<close> block; \<open>n\<close> is \<^verbatim>\<open>len(sigma_rules)\<close>.\<close>

definition try_block ::
  "nat \<Rightarrow> rule \<Rightarrow> locals \<Rightarrow> world \<Rightarrow> exn option \<times> rule \<times> locals \<times> world" where
  "try_block n rule st w =
     (let st1 = st\<lparr>sigma_rule_counter := sigma_rule_counter st + 1\<rparr>
      in case run_and_count rule st1 w of
           (Some e, rule', st2, w1) \<Rightarrow> (Some e, rule', st2, w1)
         | (None, rule', st2, w1) \<Rightarrow>
             (None, rule', st2,
              if sigma_rule_counter st2 mod 10 = 0
              then w1\<lparr>logged := logged w1 @ [Progress (sigma_rule_counter st2) n]\<rparr>
              else w1))"

text \<open>
  \<^verbatim>\<open>time.sleep(secs)\<close> for an integer \<open>secs\<close>. CPython converts the duration to a signed
  64-bit count of nanoseconds and raises \<^verbatim>\<open>OverflowError\<close> when it does not fit; it then
  raises \<^verbatim>\<open>ValueError\<close> on a negative duration. Otherwise the call sleeps and returns.
\<close>

definition time_sleep :: "int \<Rightarrow> world \<Rightarrow> exn option \<times> world" where
  "time_sleep secs w =
     (if secs * 10 ^ 9 < - (2 ^ 63) \<or> 2 ^ 63 - 1 < secs * 10 ^ 9 then (Some OverflowError, w)
      else if secs < 0 then (Some ValueError, w)
      else (None, w\<lparr>slept := slept w @ [secs]\<rparr>))"

text \<open>
  The handler \<^verbatim>\<open>except elasticsearch.TransportError as e\<close>. An exception raised in a
  handler, by \<^verbatim>\<open>time.sleep\<close> or by the retry, is not caught by the other handlers of the
  same \<^verbatim>\<open>try\<close> statement.
\<close>

definition SIGMA_TAG_DELAY :: "world \<Rightarrow> int" where
  "SIGMA_TAG_DELAY w = (case config w ''SIGMA_TAG_DELAY'' of None \<Rightarrow> 15 | Some v \<Rightarrow> v)"

definition except_transport_error ::
  "exn \<Rightarrow> rule \<Rightarrow> locals \<Rightarrow> world \<Rightarrow> exn option \<times> rule \<times> locals \<times> world" where
  "except_transport_error e rule st w =
     (let sleep_time = SIGMA_TAG_DELAY w;
          w1 = w\<lparr>logged := logged w @ [Timeout (file_name rule) e sleep_time]\<rparr>
      in case time_sleep sleep_time w1 of
           (Some x, w2) \<Rightarrow> (Some x, rule, st, w2)
         | (None, w2) \<Rightarrow> run_and_count rule st w2)"

text \<open>The bare \<^verbatim>\<open>except\<close> handler.\<close>

definition except_any :: "rule \<Rightarrow> locals \<Rightarrow> world \<Rightarrow> locals \<times> world" where
  "except_any rule st w =
     (st\<lparr>problem_strings := problem_strings st @ [''* '' @ file_name rule]\<rparr>,
      w\<lparr>logged := logged w @ [ProblemWithRule (file_name rule)]\<rparr>)"

text \<open>One iteration of \<^verbatim>\<open>for rule in sigma_rules\<close>.\<close>

definition rule_step ::
  "nat \<Rightarrow> rule \<Rightarrow> locals \<Rightarrow> world \<Rightarrow> exn option \<times> rule \<times> locals \<times> world" where
  "rule_step n rule st w =
     (let st0 = st\<lparr>tags_applied := AList.update (file_name rule) 0 (tags_applied st)\<rparr>
      in case try_block n rule st0 w of
           (None, rule', st1, w1) \<Rightarrow> (None, rule', st1, w1)
         | (Some e, rule', st1, w1) \<Rightarrow>
             if e = TransportError then except_transport_error e rule' st1 w1
             else (case except_any rule' st1 w1 of (st2, w2) \<Rightarrow> (None, rule', st2, w2)))"

text \<open>
  The loop over the rules. An exception that leaves an iteration leaves the loop; the
  rules not yet reached stay as they are.
\<close>

fun rules_loop ::
  "nat \<Rightarrow> rule list \<Rightarrow> locals \<Rightarrow> world \<Rightarrow> exn option \<times> rule list \<times> locals \<times> world" where
  "rules_loop n [] st w = (None, [], st, w)"
| "rules_loop n (rule # rules) st w =
     (case rule_step n rule st w of
        (Some e, rule', st', w') \<Rightarrow> (Some e, rule' # rules, st', w')
      | (None, rule', st', w') \<Rightarrow>
          (case rules_loop n rules st' w' of
             (r, rules', st'', w'') \<Rightarrow> (r, rule' # rules', st'', w'')))"

definition initial_locals :: locals where
  "initial_locals = \<lparr>tags_applied = [], sigma_rule_counter = 0, problem_strings = []\<rparr>"

text \<open>
  The lines of the summary, from the locals the loop leaves, and the call of the
  reporting functions.
\<close>

definition total_tagged_events :: "locals \<Rightarrow> nat" where
  "total_tagged_events st = sum_list (map snd (tags_applied st))"

definition output_strings :: "locals \<Rightarrow> string list" where
  "output_strings st =
     [''Applied '' @ format_d (total_tagged_events st) @ '' tags''] @
     (if length (problem_strings st) > 0
      then [''Problematic rules:''] @ problem_strings st
      else [])"

text \<open>
  \<^verbatim>\<open>run\<close>. Its argument \<open>sigma_rules\<close> is what \<^verbatim>\<open>ts_sigma_lib.get_all_sigma_rules()\<close>
  returned: \<open>None\<close> or a list of rules. \<^verbatim>\<open>for rule in sigma_rules\<close> raises \<^verbatim>\<open>TypeError\<close> on
  \<^verbatim>\<open>None\<close>. The result is the returned string or the exception that leaves \<^verbatim>\<open>run\<close>, the
  rules as the run leaves them, and the world.
\<close>

definition run :: "rule list option \<Rightarrow> world \<Rightarrow> (exn + string) \<times> rule list option \<times> world" where
  "run sigma_rules w =
     (case sigma_rules of
        None \<Rightarrow> (Inl TypeError, None, w\<lparr>logged := logged w @ [NoRulesFound]\<rparr>)
      | Some rules \<Rightarrow>
          (case rules_loop (length rules) rules initial_locals w of
             (Some e, rules', st, w') \<Rightarrow> (Inl e, Some rules', w')
           | (None, rules', st, w') \<Rightarrow>
               (Inr (join [CHR 0x0A] (output_strings st)), Some rules',
                if total_tagged_events st > 0
                then add_sigma_match_view (sigma_rule_counter st) w'
                else w')))"

section \<open>Notions used to state the properties\<close>

text \<open>The events committed so far, by identifier, in the order of their commits.\<close>

definition committed :: "world \<Rightarrow> nat list" where
  "committed w = map fst (filter (\<lambda>(i, c). c = Commit) (store_log w))"

text \<open>
  The world after the handler of \<^verbatim>\<open>TransportError\<close> has read the delay, logged the timeout
  of rule \<open>name\<close> and slept.
\<close>

definition cooled_down :: "string \<Rightarrow> world \<Rightarrow> world" where
  "cooled_down name w =
     w\<lparr>logged := logged w @ [Timeout name TransportError (SIGMA_TAG_DELAY w)],
       slept := slept w @ [SIGMA_TAG_DELAY w]\<rparr>"

subsection \<open>Concrete worlds\<close>

text \<open>An event with no attributes yet, and a world in which nothing has happened.\<close>

definition fresh_event :: "nat \<Rightarrow> event" where
  "fresh_event i = \<lparr>event_id = i, source = (\<lambda>k. None)\<rparr>"

definition initial_world :: "(nat \<Rightarrow> string \<Rightarrow> event list \<times> stream_end) \<Rightarrow> world" where
  "initial_world f =
     \<lparr>respond = f, queries = 0, store_log = [], slept = [], logged = [], sketch_log = [],
      config = (\<lambda>k. None)\<rparr>"

text \<open>A store that answers every query with the same two events.\<close>

definition two_events :: "nat \<Rightarrow> string \<Rightarrow> event list \<times> stream_end" where
  "two_events n query = ([fresh_event 1, fresh_event 2], Exhausted)"

definition rule_A :: rule where
  "rule_A = \<lparr>file_name = ''A'', es_query = ''query A'', tags = Some [''susp_proc'']\<rparr>"

text \<open>
  The scenario of three rules: the query of rule A yields two events, that of rule B none,
  and that of rule C raises at once an exception that is not a \<^verbatim>\<open>TransportError\<close>.
\<close>

definition rule_B :: rule where
  "rule_B = \<lparr>file_name = ''B'', es_query = ''query B'', tags = Some []\<rparr>"

definition rule_C :: rule where
  "rule_C = \<lparr>file_name = ''C'', es_query = ''query C'', tags = Some []\<rparr>"

definition scenario_store :: "nat \<Rightarrow> string \<Rightarrow> event list \<times> stream_end" where
  "scenario_store n query =
     (if query = ''query A'' then ([fresh_event 1, fresh_event 2], Exhausted)
      else if query = ''query B'' then ([], Exhausted)
      else ([], Raises OtherError))"

text \<open>
  A store whose first answer yields one event and then raises \<^verbatim>\<open>TransportError\<close>, and
  whose later answers yield two events.
\<close>

definition fails_once :: "nat \<Rightarrow> string \<Rightarrow> event list \<times> stream_end" where
  "fails_once n query =
     (if n = 0 then ([fresh_event 1], Raises TransportError)
      else ([fresh_event 1, fresh_event 2], Exhausted))"

text \<open>A store that answers every query with one event.\<close>

definition one_event :: "nat \<Rightarrow> string \<Rightarrow> event list \<times> stream_end" where
  "one_event n query = ([fresh_event 1], Exhausted)"

text \<open>
  A store whose first answer raises \<^verbatim>\<open>TransportError\<close> and whose later answers raise \<open>e\<close>.
\<close>

definition retry_fails :: "exn \<Rightarrow> nat \<Rightarrow> string \<Rightarrow> event list \<times> stream_end" where
  "retry_fails e n query = ([], Raises (if n = 0 then TransportError else e))"

text \<open>A rule with one technique tag and one ordinary tag.\<close>

definition rule_T :: rule where
  "rule_T = \<lparr>file_name = ''T'', es_query = ''query T'',
              tags = Some [''attack.t1059'', ''susp_cmd'']\<rparr>"

text \<open>
  An event that rule \<^verbatim>\<open>other.yml\<close> has matched before and that has one technique tag, and
  a store that answers every query with it.
\<close>

definition tagged_event :: event where
  "tagged_event =
     \<lparr>event_id = 7,
      source = (\<lambda>k. if k = ''ts_sigma_rule'' then Some [''other.yml'']
                     else if k = ''ts_ttp'' then Some [''attack.t1003'']
                     else None)\<rparr>"

definition one_tagged_event :: "nat \<Rightarrow> string \<Rightarrow> event list \<times> stream_end" where
  "one_tagged_event n query = ([tagged_event], Exhausted)"

section \<open>Properties of the model\<close>

subsection \<open>What one execution of a rule changes in the world\<close>

text \<open>
  An execution queries the store once and records calls on events; it leaves the clock,
  the logger, the sketch and the configuration alone.
\<close>

lemma tag_event_world:
  "\<exists>calls. snd (snd (tag_event rule_name ev tag_list w)) = w\<lparr>store_log := store_log w @ calls\<rparr>"
  by (cases tag_list) (auto simp: tag_event_def record_call_def Let_def split: prod.splits)

lemma tag_event_None: "fst (tag_event rule_name ev None w) = Some TypeError"
  by (simp add: tag_event_def Let_def)


lemma events_loop_world:
  "\<exists>calls. snd (snd (events_loop rule_name evs fin c tag_list w)) = w\<lparr>store_log := store_log w @ calls\<rparr>"
proof (induction evs arbitrary: c tag_list w)
  case Nil
  have "w = w\<lparr>store_log := store_log w @ []\<rparr>" by simp
  then show ?case by (cases fin) (auto intro: exI [of _ "[]"])
next
  case (Cons ev evs)
  obtain r tl' w' where te: "tag_event rule_name ev tag_list w = (r, tl', w')"
    by (cases "tag_event rule_name ev tag_list w") auto
  from tag_event_world [of rule_name ev tag_list w] te
  obtain calls where w': "w' = w\<lparr>store_log := store_log w @ calls\<rparr>" by auto
  show ?case
  proof (cases r)
    case None
    from Cons.IH [of "c + 1" tl' w'] obtain calls' where
      "snd (snd (events_loop rule_name evs fin (c + 1) tl' w')) = w'\<lparr>store_log := store_log w' @ calls'\<rparr>"
      by blast
    with te None w' show ?thesis by auto
  next
    case (Some e)
    with te w' show ?thesis by auto
  qed
qed


lemma run_sigma_rule_world:
  "\<exists>calls. snd (snd (run_sigma_rule w query rule_name tag_list))
      = w\<lparr>queries := queries w + 1, store_log := store_log w @ calls\<rparr>"
proof -
  obtain evs fin where r: "respond w (queries w) query = (evs, fin)"
    by (cases "respond w (queries w) query") auto
  from events_loop_world [of rule_name evs fin 0 tag_list "w\<lparr>queries := queries w + 1\<rparr>"]
  obtain calls where
    "snd (snd (events_loop rule_name evs fin 0 tag_list (w\<lparr>queries := queries w + 1\<rparr>)))
       = w\<lparr>queries := queries w + 1, store_log := store_log w @ calls\<rparr>"
    by auto
  with r show ?thesis
    by (auto simp: run_sigma_rule_def event_stream_def)
qed

lemma run_and_count_frame:
  assumes "run_and_count rule st w = (res, rule', st', w')"
  shows "\<exists>calls. w' = w\<lparr>queries := queries w + 1, store_log := store_log w @ calls\<rparr>"
    and "file_name rule' = file_name rule"
    and "es_query rule' = es_query rule"
    and "sigma_rule_counter st' = sigma_rule_counter st"
    and "problem_strings st' = problem_strings st"
proof -
  obtain r tl w1 where rs: "run_sigma_rule w (es_query rule) (file_name rule) (tags rule) = (r, tl, w1)"
    by (cases "run_sigma_rule w (es_query rule) (file_name rule) (tags rule)") auto
  from run_sigma_rule_world [of w "es_query rule" "file_name rule" "tags rule"] rs
  have w1: "\<exists>calls. w1 = w\<lparr>queries := queries w + 1, store_log := store_log w @ calls\<rparr>"
    by simp
  from assms rs have "w' = w1"
    by (auto simp: run_and_count_def Let_def split: sum.splits)
  with w1 show "\<exists>calls. w' = w\<lparr>queries := queries w + 1, store_log := store_log w @ calls\<rparr>"
    by simp
  from assms rs show "file_name rule' = file_name rule"
    by (auto simp: run_and_count_def Let_def split: sum.splits)
  from assms rs show "es_query rule' = es_query rule"
    by (auto simp: run_and_count_def Let_def split: sum.splits)
  from assms rs show "sigma_rule_counter st' = sigma_rule_counter st"
    by (auto simp: run_and_count_def Let_def split: sum.splits)
  from assms rs show "problem_strings st' = problem_strings st"
    by (auto simp: run_and_count_def Let_def split: sum.splits)
qed

lemma rule_step_frame:
  assumes "rule_step n rule st w = (res, rule', st', w')"
  shows "sketch_log w' = sketch_log w"
    and "config w' = config w"
    and "respond w' = respond w"
    and "file_name rule' = file_name rule"
    and "sigma_rule_counter st' = sigma_rule_counter st + 1"
    and "length (slept w) \<le> length (slept w')"
    and "length (committed w) \<le> length (committed w')"
    and "problem_strings st' = problem_strings st \<or>
         problem_strings st' = problem_strings st @ [''* '' @ file_name rule]"
proof -
  let ?st0 = "st\<lparr>tags_applied := AList.update (file_name rule) 0 (tags_applied st),
                 sigma_rule_counter := sigma_rule_counter st + 1\<rparr>"
  obtain r1 rule1 st1 w1 where rc: "run_and_count rule ?st0 w = (r1, rule1, st1, w1)"
    by (cases "run_and_count rule ?st0 w") auto
  note f1 = run_and_count_frame [OF rc]
  from f1(1) obtain calls1 where
    w1: "w1 = w\<lparr>queries := queries w + 1, store_log := store_log w @ calls1\<rparr>" by blast
  let ?w1' = "w1\<lparr>logged := logged w1 @ [Timeout (file_name rule1) TransportError (SIGMA_TAG_DELAY w1)],
                  slept := slept w1 @ [SIGMA_TAG_DELAY w1]\<rparr>"
  obtain r2 rule2 st2 w2 where rc2: "run_and_count rule1 st1 ?w1' = (r2, rule2, st2, w2)"
    by (cases "run_and_count rule1 st1 ?w1'") auto
  note f2 = run_and_count_frame [OF rc2]
  from f2(1) obtain calls2 where
    w2: "w2 = ?w1'\<lparr>queries := queries ?w1' + 1, store_log := store_log ?w1' @ calls2\<rparr>" by blast
  have all: "sketch_log w' = sketch_log w \<and> config w' = config w \<and> respond w' = respond w
      \<and> file_name rule' = file_name rule
      \<and> sigma_rule_counter st' = sigma_rule_counter st + 1
      \<and> length (slept w) \<le> length (slept w')
      \<and> length (committed w) \<le> length (committed w')
      \<and> (problem_strings st' = problem_strings st \<or>
         problem_strings st' = problem_strings st @ [''* '' @ file_name rule])"
    using assms rc rc2 f1(2-5) f2(2-5) w1 w2
    by (auto simp: rule_step_def try_block_def except_transport_error_def except_any_def
          time_sleep_def committed_def Let_def split: option.splits if_splits)
  then show "sketch_log w' = sketch_log w"
    and "config w' = config w"
    and "respond w' = respond w"
    and "file_name rule' = file_name rule"
    and "sigma_rule_counter st' = sigma_rule_counter st + 1"
    and "length (slept w) \<le> length (slept w')"
    and "length (committed w) \<le> length (committed w')"
    and "problem_strings st' = problem_strings st \<or>
         problem_strings st' = problem_strings st @ [''* '' @ file_name rule]"
    by blast+
qed

subsection \<open>The ways one iteration over the rules can go\<close>

text \<open>
  The key of the rule is set to \<open>0\<close> before the \<^verbatim>\<open>try\<close> statement, so the increment
  after it never raises \<^verbatim>\<open>KeyError\<close>.
\<close>

lemma dict_iadd_after_reset:
  "dict_iadd k c (AList.update k 0 d) = Inr (AList.update k c d)"
  by (simp add: dict_iadd_def update_conv')




lemma rule_step_retry:
  assumes "run_sigma_rule w (es_query rule) (file_name rule) (tags rule)
             = (Inl TransportError, tag_list1, w1)"
    and "0 \<le> SIGMA_TAG_DELAY w1"
    and "SIGMA_TAG_DELAY w1 * 10 ^ 9 \<le> 2 ^ 63 - 1"
    and "run_sigma_rule (cooled_down (file_name rule) w1) (es_query rule) (file_name rule) tag_list1
             = (r, tag_list2, w2)"
  shows "rule_step n rule st w =
     (case r of
        Inl e \<Rightarrow>
          (Some e, rule\<lparr>tags := tag_list2\<rparr>,
           st\<lparr>tags_applied := AList.update (file_name rule) 0 (tags_applied st),
              sigma_rule_counter := sigma_rule_counter st + 1\<rparr>, w2)
      | Inr c \<Rightarrow>
          (None, rule\<lparr>tags := tag_list2\<rparr>,
           st\<lparr>tags_applied := AList.update (file_name rule) c (tags_applied st),
              sigma_rule_counter := sigma_rule_counter st + 1\<rparr>, w2))"
  using assms
  by (cases r)
     (simp_all add: rule_step_def try_block_def run_and_count_def except_transport_error_def
        time_sleep_def cooled_down_def dict_iadd_after_reset Let_def)

subsection \<open>The loop over the rules\<close>

lemma rules_loop_frame:
  assumes "rules_loop n rules st w = (res, rules', st', w')"
  shows "sketch_log w' = sketch_log w \<and> config w' = config w \<and> respond w' = respond w
     \<and> map file_name rules' = map file_name rules
     \<and> length (slept w) \<le> length (slept w')
     \<and> length (committed w) \<le> length (committed w')
     \<and> length (problem_strings st) \<le> length (problem_strings st')
     \<and> (res = None \<longrightarrow> sigma_rule_counter st' = sigma_rule_counter st + length rules)"
  using assms
proof (induction rules arbitrary: st w res rules' st' w')
  case Nil
  then show ?case by simp
next
  case (Cons rule rules)
  obtain r1 rule1 st1 w1 where step: "rule_step n rule st w = (r1, rule1, st1, w1)"
    by (cases "rule_step n rule st w") auto
  note f = rule_step_frame [OF step]
  from f(8) have ps: "length (problem_strings st) \<le> length (problem_strings st1)" by auto
  show ?case
  proof (cases r1)
    case (Some e)
    with Cons.prems step f ps show ?thesis by auto
  next
    case None
    obtain r2 rules2 st2 w2 where rest: "rules_loop n rules st1 w1 = (r2, rules2, st2, w2)"
      by (cases "rules_loop n rules st1 w1") auto
    from Cons.IH [OF rest] None Cons.prems step rest f ps show ?thesis by auto
  qed
qed



subsection \<open>Counts and commits\<close>







subsection \<open>The attributes written for one event\<close>

lemma tag_loop_ttp:
  "set ts_ttp \<subseteq> set (snd (tag_loop i tag_list ts_ttp)) \<and>
   set (snd (tag_loop i tag_list ts_ttp)) \<subseteq> set ts_ttp \<union> {t \<in> set tag_list. is_ttp t}"
proof (induction i tag_list ts_ttp rule: tag_loop.induct)
  case (1 i tag_list ts_ttp)
  show ?case
  proof (cases "i < length tag_list")
    case False
    then show ?thesis by (simp add: tag_loop.simps [of i tag_list ts_ttp])
  next
    case True
    show ?thesis
    proof (cases "is_ttp (tag_list ! i)")
      case t: True
      from "1.IH"(1) [OF True refl t]
      have ih: "set (ts_ttp @ [tag_list ! i]) \<subseteq> set (snd (tag_loop (i + 1) (remove1 (tag_list ! i) tag_list) (ts_ttp @ [tag_list ! i])))"
        "set (snd (tag_loop (i + 1) (remove1 (tag_list ! i) tag_list) (ts_ttp @ [tag_list ! i])))
           \<subseteq> set (ts_ttp @ [tag_list ! i]) \<union> {t \<in> set (remove1 (tag_list ! i) tag_list). is_ttp t}"
        by auto
      have "set (remove1 (tag_list ! i) tag_list) \<subseteq> set tag_list" by (rule set_remove1_subset)
      moreover from True have "tag_list ! i \<in> set tag_list" by simp
      ultimately show ?thesis using ih True t
        by (auto simp: tag_loop.simps [of i tag_list ts_ttp] Let_def)
    next
      case f: False
      from "1.IH"(2) [OF True refl f] True f show ?thesis
        by (simp add: tag_loop.simps [of i tag_list ts_ttp] Let_def)
    qed
  qed
qed

lemma tag_event_writes:
  "\<exists>tags' rs ts w'.
      tag_event rule_name ev (Some tag_list) w = (None, Some tags', w')
    \<and> map snd (drop (length (store_log w)) (store_log w'))
        = [AddAttributes ''ts_sigma_rule'' rs, AddTags tags']
          @ (if ts = [] then [] else [AddAttributes ''ts_ttp'' ts]) @ [Commit]
    \<and> distinct rs
    \<and> set rs = set (get_list (source ev) ''ts_sigma_rule'') \<union> {rule_name}
    \<and> distinct ts
    \<and> set (get_list (source ev) ''ts_ttp'') \<subseteq> set ts
    \<and> set ts \<subseteq> set (get_list (source ev) ''ts_ttp'') \<union> {t \<in> set tag_list. is_ttp t}"
proof -
  obtain tags' ttp' where tl: "tag_loop 0 tag_list (get_list (source ev) ''ts_ttp'') = (tags', ttp')"
    by (cases "tag_loop 0 tag_list (get_list (source ev) ''ts_ttp'')") auto
  from tag_loop_ttp [of "get_list (source ev) ''ts_ttp''" 0 tag_list] tl
  have ttp: "set (get_list (source ev) ''ts_ttp'') \<subseteq> set ttp'"
    "set ttp' \<subseteq> set (get_list (source ev) ''ts_ttp'') \<union> {t \<in> set tag_list. is_ttp t}"
    by auto
  let ?rs = "list_set (get_list (source ev) ''ts_sigma_rule'' @ [rule_name])"
  let ?w' = "snd (snd (tag_event rule_name ev (Some tag_list) w))"
  have 1: "tag_event rule_name ev (Some tag_list) w = (None, Some tags', ?w')"
    using tl by (simp add: tag_event_def Let_def)
  have 2: "map snd (drop (length (store_log w)) (store_log ?w'))
        = [AddAttributes ''ts_sigma_rule'' ?rs, AddTags tags']
          @ (if list_set ttp' = [] then [] else [AddAttributes ''ts_ttp'' (list_set ttp')]) @ [Commit]"
    using tl by (simp add: tag_event_def record_call_def list_set_def Let_def)
  have 3: "distinct ?rs" "set ?rs = set (get_list (source ev) ''ts_sigma_rule'') \<union> {rule_name}"
    "distinct (list_set ttp')" "set (list_set ttp') = set ttp'"
    by (simp_all add: list_set_def)
  from 1 2 3 ttp show ?thesis by blast
qed

section \<open>The claims\<close>

lemmas eval_defs =
  run_def rule_step_def try_block_def run_and_count_def run_sigma_rule_def
  event_stream_def tag_event_def record_call_def get_list_def list_set_def is_ttp_def dict_iadd_def
  except_any_def except_transport_error_def time_sleep_def SIGMA_TAG_DELAY_def
  initial_locals_def output_strings_def total_tagged_events_def digit_char_def
  fresh_event_def initial_world_def committed_def cooled_down_def Let_def

lemmas scenario_defs = rule_A_def rule_B_def rule_C_def scenario_store_def

text \<open>
  Claim C1, evaluated at the tag list \<^verbatim>\<open>['attack.t1059', 'attack.t1086', 'susp_cmd']\<close> and one
  event without attributes: removing \<^verbatim>\<open>attack.t1059\<close> from the list while iterating it makes
  the iteration skip \<^verbatim>\<open>attack.t1086\<close>, so that \<^verbatim>\<open>ts_ttp\<close> is written without it and
  \<^verbatim>\<open>add_tags\<close> receives it, a tag of the technique namespace.
\<close>

theorem adjacent_technique_tag_skipped:
  "store_log (snd (snd (run_sigma_rule (initial_world one_event) ''query'' ''rule.yml''
       (Some [''attack.t1059'', ''attack.t1086'', ''susp_cmd'']))))
     = [(1, AddAttributes ''ts_sigma_rule'' [''rule.yml'']),
        (1, AddTags [''attack.t1086'', ''susp_cmd'']),
        (1, AddAttributes ''ts_ttp'' [''attack.t1059'']),
        (1, Commit)]
   \<and> is_ttp ''attack.t1086''"
  by (simp add: eval_defs one_event_def tag_loop.simps)

text \<open>
  Claim C2, evaluated at two rules and a store whose first answer raises
  \<^verbatim>\<open>TransportError\<close>: the retry of rule A runs inside the handler, so when it raises, be it
  \<^verbatim>\<open>TransportError\<close> again or another exception, the exception leaves \<^verbatim>\<open>run\<close>. No summary is
  returned, rule A is not reported as a problem, and rule B is never executed: the store
  has been queried twice, both times for rule A.
\<close>

theorem failed_retry_leaves_run:
  "fst (run (Some [rule_A, rule_B]) (initial_world (retry_fails TransportError)))
     = Inl TransportError
   \<and> fst (run (Some [rule_A, rule_B]) (initial_world (retry_fails OtherError)))
     = Inl OtherError
   \<and> snd (snd (run (Some [rule_A, rule_B]) (initial_world (retry_fails OtherError))))
     = (initial_world (retry_fails OtherError))
         \<lparr>queries := 2, slept := [15], logged := [Timeout ''A'' TransportError 15]\<rparr>"
  by (simp add: eval_defs scenario_defs retry_fails_def tag_loop.simps)

text \<open>
  Claim C3, evaluated: when the rule source returned \<^verbatim>\<open>None\<close>, \<^verbatim>\<open>run\<close> logs that no rules
  were found and then raises \<^verbatim>\<open>TypeError\<close> at the loop over the rules; when it returned an
  empty list, \<^verbatim>\<open>run\<close> returns \<^verbatim>\<open>Applied 0 tags\<close> and logs nothing.
\<close>

theorem missing_rules_raise:
  "run None w = (Inl TypeError, None, w\<lparr>logged := logged w @ [NoRulesFound]\<rparr>)
   \<and> run (Some []) w = (Inr ''Applied 0 tags'', Some [], w)"
  by (simp add: run_def initial_locals_def output_strings_def total_tagged_events_def
        format_d.simps digit_char_def)



text \<open>
  Claim C5, evaluated at the tag list \<^verbatim>\<open>['attack.t1059', 'attack.t1086', 'susp_cmd']\<close> and an
  event that has \<^verbatim>\<open>ts_sigma_rule = ['other.yml']\<close> and \<^verbatim>\<open>ts_ttp = ['attack.t1003']\<close>: both
  writes are free of duplicates and keep what the event had, and \<^verbatim>\<open>ts_sigma_rule\<close> gains
  the name of the rule, but the write of \<^verbatim>\<open>ts_ttp\<close> gains only \<^verbatim>\<open>attack.t1059\<close>: the new
  technique tag \<^verbatim>\<open>attack.t1086\<close>, skipped by the loop that removes from the list it iterates,
  is not in it.
\<close>

theorem technique_tag_missing_from_write:
  "store_log (snd (snd (run_sigma_rule (initial_world one_tagged_event) ''query'' ''rule.yml''
       (Some [''attack.t1059'', ''attack.t1086'', ''susp_cmd'']))))
     = [(7, AddAttributes ''ts_sigma_rule'' [''other.yml'', ''rule.yml'']),
        (7, AddTags [''attack.t1086'', ''susp_cmd'']),
        (7, AddAttributes ''ts_ttp'' [''attack.t1003'', ''attack.t1059'']),
        (7, Commit)]
   \<and> is_ttp ''attack.t1086''
   \<and> ''attack.t1086'' \<notin> set [''attack.t1003'', ''attack.t1059'']"
  by (simp add: eval_defs one_tagged_event_def tagged_event_def tag_loop.simps)

text \<open>
  Claim C6. When the first execution of a rule raises \<^verbatim>\<open>TransportError\<close> and the retry
  returns the count \<open>c\<close>, the iteration completes, the count recorded for the rule is \<open>c\<close>,
  the rule is not entered in the problem list, the store has been queried twice, and
  \<^verbatim>\<open>time.sleep\<close> has been called exactly once, with the value of \<^verbatim>\<open>SIGMA_TAG_DELAY\<close> read from
  the configuration when the failure is handled, 15 when the configuration has no such
  entry. The delay is taken to be one that \<^verbatim>\<open>time.sleep\<close> accepts, that is not negative
  and, counted in nanoseconds, within a signed 64-bit integer: on any other delay
  \<^verbatim>\<open>time.sleep\<close> raises, the exception leaves \<^verbatim>\<open>run\<close>, and no retry takes place.
\<close>

theorem single_retry_after_cooldown:
  assumes "run_sigma_rule w (es_query rule) (file_name rule) (tags rule)
             = (Inl TransportError, tag_list1, w1)"
    and "0 \<le> SIGMA_TAG_DELAY w1"
    and "SIGMA_TAG_DELAY w1 * 10 ^ 9 \<le> 2 ^ 63 - 1"
    and "run_sigma_rule (cooled_down (file_name rule) w1) (es_query rule) (file_name rule) tag_list1
             = (Inr c, tag_list2, w2)"
  shows "\<exists>st'. rule_step n rule st w = (None, rule\<lparr>tags := tag_list2\<rparr>, st', w2)
     \<and> map_of (tags_applied st') (file_name rule) = Some c
     \<and> problem_strings st' = problem_strings st
     \<and> slept w2 = slept w @ [SIGMA_TAG_DELAY w1]
     \<and> SIGMA_TAG_DELAY w1 = (case config w ''SIGMA_TAG_DELAY'' of None \<Rightarrow> 15 | Some d \<Rightarrow> d)
     \<and> queries w2 = queries w + 2"
proof -
  from run_sigma_rule_world [of w "es_query rule" "file_name rule" "tags rule"] assms(1)
  obtain calls1 where w1: "w1 = w\<lparr>queries := queries w + 1, store_log := store_log w @ calls1\<rparr>"
    by auto
  from run_sigma_rule_world [of "cooled_down (file_name rule) w1" "es_query rule" "file_name rule" tag_list1]
    assms(4)
  obtain calls2 where w2: "w2 = (cooled_down (file_name rule) w1)
      \<lparr>queries := queries (cooled_down (file_name rule) w1) + 1,
       store_log := store_log (cooled_down (file_name rule) w1) @ calls2\<rparr>"
    by auto
  from w1 w2 have s: "slept w2 = slept w @ [SIGMA_TAG_DELAY w1]" "queries w2 = queries w + 2"
    by (simp_all add: cooled_down_def)
  from w1 have d: "SIGMA_TAG_DELAY w1 = (case config w ''SIGMA_TAG_DELAY'' of None \<Rightarrow> 15 | Some d \<Rightarrow> d)"
    by (simp add: SIGMA_TAG_DELAY_def)
  from rule_step_retry [OF assms, of n st]
  have step: "rule_step n rule st w =
     (None, rule\<lparr>tags := tag_list2\<rparr>,
      st\<lparr>tags_applied := AList.update (file_name rule) c (tags_applied st),
         sigma_rule_counter := sigma_rule_counter st + 1\<rparr>, w2)"
    by simp
  have "map_of (AList.update (file_name rule) c (tags_applied st)) (file_name rule) = Some c"
    by (simp add: update_conv')
  with step s d show ?thesis by simp
qed

theorem single_retry_after_cooldown_witness:
  "run_sigma_rule (initial_world fails_once) ''query A'' ''A'' (Some [''susp_proc''])
     = (Inl TransportError, Some [''susp_proc''],
        snd (snd (run_sigma_rule (initial_world fails_once) ''query A'' ''A'' (Some [''susp_proc'']))))
   \<and> slept (snd (snd (snd (rule_step 1 rule_A initial_locals (initial_world fails_once))))) = [15]
   \<and> map_of (tags_applied (fst (snd (snd (rule_step 1 rule_A initial_locals (initial_world fails_once))))))
        ''A'' = Some 2"
proof -
  let ?W = "initial_world fails_once"
  let ?w1 = "snd (snd (run_sigma_rule ?W ''query A'' ''A'' (Some [''susp_proc''])))"
  let ?w2 = "snd (snd (run_sigma_rule (cooled_down ''A'' ?w1) ''query A'' ''A'' (Some [''susp_proc''])))"
  have h1: "run_sigma_rule ?W (es_query rule_A) (file_name rule_A) (tags rule_A)
     = (Inl TransportError, Some [''susp_proc''], ?w1)"
    by (simp add: eval_defs rule_A_def fails_once_def tag_loop.simps)
  have h2: "0 \<le> SIGMA_TAG_DELAY ?w1" "SIGMA_TAG_DELAY ?w1 * 10 ^ 9 \<le> 2 ^ 63 - 1"
    by (simp_all add: eval_defs fails_once_def tag_loop.simps)
  have h3: "run_sigma_rule (cooled_down (file_name rule_A) ?w1) (es_query rule_A) (file_name rule_A)
       (Some [''susp_proc''])
     = (Inr 2, Some [''susp_proc''], ?w2)"
    by (simp add: eval_defs rule_A_def fails_once_def tag_loop.simps)
  from single_retry_after_cooldown [OF h1 h2 h3, of 1 initial_locals]
  obtain st' where step: "rule_step 1 rule_A initial_locals ?W
        = (None, rule_A\<lparr>tags := Some [''susp_proc'']\<rparr>, st', ?w2)"
    and cnt: "map_of (tags_applied st') (file_name rule_A) = Some 2"
    and sl: "slept ?w2 = slept ?W @ [SIGMA_TAG_DELAY ?w1]"
    and d: "SIGMA_TAG_DELAY ?w1 = (case config ?W ''SIGMA_TAG_DELAY'' of None \<Rightarrow> 15 | Some d \<Rightarrow> d)"
    by blast
  from d have "SIGMA_TAG_DELAY ?w1 = 15" by (simp add: initial_world_def)
  with sl have "slept ?w2 = [15]" by (simp add: initial_world_def)
  with step cnt h1 show ?thesis by (simp add: rule_A_def)
qed

text \<open>
  Claim C7, evaluated at a rule with the tags \<^verbatim>\<open>['attack.t1059', 'susp_cmd']\<close> whose query
  yields two events: after the run the tag list of the rule is \<^verbatim>\<open>['susp_cmd']\<close>, and the
  second event, tagged from the shortened list, gets no \<^verbatim>\<open>ts_ttp\<close> attribute.
\<close>

theorem tag_list_of_rule_changed:
  "fst (snd (run (Some [rule_T]) (initial_world two_events)))
     = Some [rule_T\<lparr>tags := Some [''susp_cmd'']\<rparr>]
   \<and> store_log (snd (snd (run (Some [rule_T]) (initial_world two_events))))
     = [(1, AddAttributes ''ts_sigma_rule'' [''T'']),
        (1, AddTags [''susp_cmd'']),
        (1, AddAttributes ''ts_ttp'' [''attack.t1059'']),
        (1, Commit),
        (2, AddAttributes ''ts_sigma_rule'' [''T'']),
        (2, AddTags [''susp_cmd'']),
        (2, Commit)]"
  by (simp add: eval_defs rule_T_def two_events_def tag_loop.simps add_sigma_match_view_def)

text \<open>
  Claim C8. The loop over the rules makes no call on the sketch. After it,
  \<^verbatim>\<open>add_sigma_match_view\<close>, which adds the view, the aggregation and the story, is called
  exactly when the loop completed and the total of tagged events is greater than zero, and
  its argument is the number of rules of the run. When the rule source returned \<^verbatim>\<open>None\<close> no
  call is made on the sketch either.
\<close>

theorem reporting_sink_invocation:
  assumes "rules_loop (length rules) rules initial_locals w = (r, rules', st, w1)"
  shows "sketch_log w1 = sketch_log w
     \<and> snd (snd (run (Some rules) w))
         = (if r = None \<and> 0 < total_tagged_events st
            then add_sigma_match_view (length rules) w1 else w1)
     \<and> sketch_log (snd (snd (run None w))) = sketch_log w"
proof -
  note f = rules_loop_frame [OF assms]
  from f have 1: "sketch_log w1 = sketch_log w" by simp
  have 2: "snd (snd (run (Some rules) w))
         = (if r = None \<and> 0 < total_tagged_events st
            then add_sigma_match_view (length rules) w1 else w1)"
  proof (cases r)
    case None
    with f have "sigma_rule_counter st = length rules" by (simp add: initial_locals_def)
    with None assms show ?thesis by (simp add: run_def)
  next
    case (Some e)
    with assms show ?thesis by (simp add: run_def)
  qed
  have 3: "sketch_log (snd (snd (run None w))) = sketch_log w" by (simp add: run_def)
  from 1 2 3 show ?thesis by blast
qed

theorem reporting_sink_invocation_scenario:
  "sketch_log (snd (snd (run (Some [rule_A, rule_B, rule_C]) (initial_world scenario_store))))
     = sketch_log (add_sigma_match_view 3 (initial_world scenario_store))
   \<and> sketch_log (snd (snd (run (Some [rule_B, rule_C]) (initial_world scenario_store)))) = []"
proof -
  let ?W = "initial_world scenario_store"
  have sink: "sketch_log (snd (snd (run (Some rules) ?W)))
      = (if fst (rules_loop (length rules) rules initial_locals ?W) = None
            \<and> 0 < total_tagged_events (fst (snd (snd (rules_loop (length rules) rules initial_locals ?W))))
         then sketch_log (add_sigma_match_view (length rules) ?W) else [])" for rules
  proof -
    let ?L = "rules_loop (length rules) rules initial_locals ?W"
    have loop: "?L = (fst ?L, fst (snd ?L), fst (snd (snd ?L)), snd (snd (snd ?L)))" by simp
    from reporting_sink_invocation [OF loop] show ?thesis
      by (simp add: add_sigma_match_view_def initial_world_def)
  qed
  have 1: "sketch_log (snd (snd (run (Some [rule_A, rule_B, rule_C]) ?W)))
     = sketch_log (add_sigma_match_view 3 ?W)"
    by (subst sink)
       (simp add: eval_defs scenario_defs tag_loop.simps add_sigma_match_view_def
          numeral_3_eq_3)
  have 2: "sketch_log (snd (snd (run (Some [rule_B, rule_C]) ?W))) = []"
    by (subst sink) (simp add: eval_defs scenario_defs tag_loop.simps add_sigma_match_view_def)
  from 1 2 show ?thesis by blast
qed


text \<open>
  Claim C9. When \<^verbatim>\<open>run_sigma_rule\<close> is called with \<^verbatim>\<open>tag_list\<close> omitted or \<^verbatim>\<open>None\<close> and the
  query yields at least one event, the call raises \<^verbatim>\<open>TypeError\<close> at the first event, before
  any event is committed: the absent tag list is not treated as an empty one.
\<close>

theorem run_sigma_rule_without_tag_list:
  assumes "respond w (queries w) query = (ev # evs, fin)"
  shows "fst (run_sigma_rule w query rule_name None) = Inl TypeError
     \<and> committed (snd (snd (run_sigma_rule w query rule_name None))) = committed w"
  using assms
  by (simp add: run_sigma_rule_def event_stream_def tag_event_def record_call_def committed_def
        Let_def)

theorem run_sigma_rule_without_tag_list_witness:
  "respond (initial_world two_events) (queries (initial_world two_events)) ''q''
     = (fresh_event 1 # [fresh_event 2], Exhausted)
   \<and> fst (run_sigma_rule (initial_world two_events) ''q'' ''rule.yml'' None) = Inl TypeError"
proof -
  have h: "respond (initial_world two_events) (queries (initial_world two_events)) ''q''
     = (fresh_event 1 # [fresh_event 2], Exhausted)"
    by (simp add: initial_world_def two_events_def)
  from run_sigma_rule_without_tag_list [OF h, of "''rule.yml''"] h show ?thesis by simp
qed




end
